theory Spec2Isabelle
  imports Complex_Main
begin

section \<open>The head tracker of simple\_head\_tracker.js\<close>

text \<open>
  The class \<^verbatim>\<open>SimpleHeadTracker\<close> is embedded as a record of its fields and one HOL
  function per method; a method that assigns to \<^verbatim>\<open>this\<close> takes the tracker and returns
  the updated one.

  Conventions of the embedding:
  \<^item> A JavaScript number is an IEEE 754 double, embedded as \<open>jsnum\<close> (next section):
    a finite value, negative zero, the two infinities or NaN, with every arithmetic
    operation rounding its exact result to the nearest double. Array lengths and loop
    indices are \<^typ>\<open>nat\<close>, the small integer vote weights are \<^typ>\<open>int\<close>.
  \<^item> The three string literals \<^verbatim>\<open>'up'\<close>, \<^verbatim>\<open>'down'\<close>, \<^verbatim>\<open>'neutral'\<close> are the
    only values the class ever stores in \<^verbatim>\<open>currentHeadPose\<close> and \<^verbatim>\<open>poseHistory\<close>; they
    are the constructors of \<open>pose\<close>.
  \<^item> A thrown \<^verbatim>\<open>TypeError\<close> is the left summand of a result.
  \<^item> The page elements the class looks up are taken to exist. Of what it writes to the
    page, the caption and the colour of the calibrate button are kept as two fields of
    the record, because they tell the two branches of \<^verbatim>\<open>finishCalibration\<close> apart;
    \<^verbatim>\<open>updateUI\<close> and \<^verbatim>\<open>console.log\<close> write no field of the tracker and are left
    out, and so are \<^verbatim>\<open>togglePreviewWindow\<close> and the field \<^verbatim>\<open>previewVisible\<close>, which
    only that method reads or writes, and the handles \<^verbatim>\<open>faceMesh\<close> and \<^verbatim>\<open>camera\<close>.
  \<^item> \<^verbatim>\<open>calculateHeadPose\<close> is floating-point trigonometry on the landmark array, and
    throws a \<^verbatim>\<open>TypeError\<close> when a landmark it reads is missing. It reads no field of
    the tracker and writes none, so the frame handler takes it as a parameter \<open>calc\<close>
    from landmark sets to a sample or an error, and what is proved of the handler
    holds for every such function, also for one that returns a pitch of NaN or of
    infinite size.
\<close>

section \<open>JavaScript numbers\<close>

text \<open>
  \<open>Num x\<close> is the finite double of exact value \<open>x\<close>, with \<open>Num 0\<close> for positive zero.
  (\<open>Num x\<close> for an \<open>x\<close> that no double has is not a JavaScript number; what is proved
  for all \<open>jsnum\<close> holds for the doubles among them, and the concrete inputs below
  are doubles.)
\<close>

datatype jsnum = Num real | NegZero | PosInfinity | NegInfinity | NaN

text \<open>Rounding to the nearest integer, a tie to the even one.\<close>

definition ties_even :: "real \<Rightarrow> int" where
  "ties_even x =
     (let f = \<lfloor>x\<rfloor>; d = x - of_int f
      in if d < 1 / 2 then f else if 1 / 2 < d then f + 1 else if even f then f else f + 1)"

text \<open>The exponent \<open>e\<close> with \<open>2 powi e \<le> \<bar>x\<bar> < 2 powi (e + 1)\<close>, for \<open>x\<close> other than 0.\<close>

definition binade :: "real \<Rightarrow> int" where
  "binade x = \<lfloor>log 2 \<bar>x\<bar>\<rfloor>"

text \<open>
  Rounding an exact result to binary64, round-to-nearest, ties to even: the doubles
  around \<open>x\<close> are the multiples of \<open>q\<close>, which is \<open>2 powi (e - 52)\<close> in the binade \<open>e\<close> of
  \<open>x\<close> and \<open>2 powi (- 1074)\<close> among the subnormals; a result of size \<open>2 powi 1024\<close>
  overflows to an infinity, and a result rounded to zero keeps the sign of \<open>x\<close>.
\<close>

definition round_double :: "real \<Rightarrow> jsnum" where
  "round_double x =
     (if x = 0 then Num 0
      else let q = 2 powi (max (binade x) (- 1022) - 52);
               y = of_int (ties_even (x / q)) * q
           in if 2 powi 1024 \<le> \<bar>y\<bar> then (if 0 < x then PosInfinity else NegInfinity)
              else if y = 0 then (if 0 < x then Num 0 else NegZero)
              else Num y)"

fun infinite_num :: "jsnum \<Rightarrow> bool" where
  "infinite_num PosInfinity = True"
| "infinite_num NegInfinity = True"
| "infinite_num _ = False"

fun zero_num :: "jsnum \<Rightarrow> bool" where
  "zero_num (Num x) = (x = 0)"
| "zero_num NegZero = True"
| "zero_num _ = False"

text \<open>The sign bit (of no use for NaN).\<close>

fun negative_num :: "jsnum \<Rightarrow> bool" where
  "negative_num (Num x) = (x < 0)"
| "negative_num NegZero = True"
| "negative_num NegInfinity = True"
| "negative_num _ = False"

text \<open>The exact value of a finite number.\<close>

fun real_of :: "jsnum \<Rightarrow> real" where
  "real_of (Num x) = x"
| "real_of _ = 0"

definition signed_zero :: "bool \<Rightarrow> jsnum" where
  "signed_zero negative = (if negative then NegZero else Num 0)"

definition signed_infinity :: "bool \<Rightarrow> jsnum" where
  "signed_infinity negative = (if negative then NegInfinity else PosInfinity)"

text \<open>Unary minus flips the sign bit.\<close>

fun js_neg :: "jsnum \<Rightarrow> jsnum" where
  "js_neg (Num x) = (if x = 0 then NegZero else Num (- x))"
| "js_neg NegZero = Num 0"
| "js_neg PosInfinity = NegInfinity"
| "js_neg NegInfinity = PosInfinity"
| "js_neg NaN = NaN"

text \<open>
  \<^verbatim>\<open>a + b\<close>: NaN is contagious, opposite infinities give NaN, two zeros give negative
  zero only if both are negative, an exact sum of zero is positive zero, and any other
  sum is rounded.
\<close>

definition js_add :: "jsnum \<Rightarrow> jsnum \<Rightarrow> jsnum" where
  "js_add a b =
     (if a = NaN \<or> b = NaN then NaN
      else if infinite_num a then (if infinite_num b \<and> a \<noteq> b then NaN else a)
      else if infinite_num b then b
      else if zero_num a \<and> zero_num b
        then (if a = NegZero \<and> b = NegZero then NegZero else Num 0)
      else if real_of a + real_of b = 0 then Num 0
      else round_double (real_of a + real_of b))"

text \<open>\<^verbatim>\<open>a - b\<close> is \<^verbatim>\<open>a + (-b)\<close>.\<close>

definition js_sub :: "jsnum \<Rightarrow> jsnum \<Rightarrow> jsnum" where
  "js_sub a b = js_add a (js_neg b)"

text \<open>\<^verbatim>\<open>a * b\<close> and \<^verbatim>\<open>a / b\<close>: the sign of the result is the product of the signs.\<close>

definition js_mul :: "jsnum \<Rightarrow> jsnum \<Rightarrow> jsnum" where
  "js_mul a b =
     (if a = NaN \<or> b = NaN then NaN
      else if (infinite_num a \<and> zero_num b) \<or> (zero_num a \<and> infinite_num b) then NaN
      else if infinite_num a \<or> infinite_num b
        then signed_infinity (negative_num a \<noteq> negative_num b)
      else if zero_num a \<or> zero_num b then signed_zero (negative_num a \<noteq> negative_num b)
      else round_double (real_of a * real_of b))"

definition js_div :: "jsnum \<Rightarrow> jsnum \<Rightarrow> jsnum" where
  "js_div a b =
     (if a = NaN \<or> b = NaN then NaN
      else if (infinite_num a \<and> infinite_num b) \<or> (zero_num a \<and> zero_num b) then NaN
      else if infinite_num a \<or> zero_num b
        then signed_infinity (negative_num a \<noteq> negative_num b)
      else if infinite_num b \<or> zero_num a
        then signed_zero (negative_num a \<noteq> negative_num b)
      else round_double (real_of a / real_of b))"

text \<open>
  \<^verbatim>\<open>a < b\<close> is false when either side is NaN and compares the two zeros as equal;
  \<^verbatim>\<open>a > b\<close> is \<^verbatim>\<open>b < a\<close>. \<open>js_eq\<close> is \<^verbatim>\<open>a === b\<close> on numbers.
\<close>

definition js_lt :: "jsnum \<Rightarrow> jsnum \<Rightarrow> bool" where
  "js_lt a b =
     (if a = NaN \<or> b = NaN then False
      else if a = NegInfinity then b \<noteq> NegInfinity
      else if b = PosInfinity then a \<noteq> PosInfinity
      else if a = PosInfinity \<or> b = NegInfinity then False
      else real_of a < real_of b)"

definition js_eq :: "jsnum \<Rightarrow> jsnum \<Rightarrow> bool" where
  "js_eq a b \<longleftrightarrow> a \<noteq> NaN \<and> b \<noteq> NaN \<and> (a = b \<or> (zero_num a \<and> zero_num b))"

text \<open>
  \<^verbatim>\<open>Math.round\<close>: the nearest integer, a half upwards, computed exactly; negative zero
  for a value from -0.5 up to negative zero; NaN and the infinities unchanged.
\<close>

fun math_round :: "jsnum \<Rightarrow> jsnum" where
  "math_round (Num x) =
     (if x = 0 then Num 0
      else if x < 0 \<and> - (1 / 2) \<le> x then NegZero
      else Num (of_int \<lfloor>x + 1 / 2\<rfloor>))"
| "math_round other = other"

section \<open>The tracker\<close>

subsection \<open>Data\<close>

datatype pose = Up | Down | Neutral

datatype js_error = TypeError

record head_data =
  pitch :: jsnum
  eyeToNose :: jsnum
  chinAngle :: jsnum
  confidence :: jsnum

datatype caption =
    CalibratingKeepNeutral
  | CalibratingPercent jsnum
  | HeadTrackingCalibrated
  | HeadTrackingActiveDefault
  | Recalibrating
  | EnableHeadTracking
  | PageCaption string

record tracker =
  isInitialized :: bool
  currentHeadPose :: pose
  poseHistory :: "pose list"
  maxHistoryLength :: nat
  isCalibrated :: bool
  neutralPosition :: "jsnum option"
  calibrationSamples :: "head_data list"
  calibrationFrames :: nat
  upThreshold :: jsnum
  downThreshold :: jsnum
  minConfidenceFrames :: int
  calibrateButtonText :: caption
  calibrateButtonBackground :: string

text \<open>
  The field values the constructor assigns. The button belongs to the page, so its
  caption and colour at construction time are arguments.
\<close>

definition new_tracker :: "caption \<Rightarrow> string \<Rightarrow> tracker" where
  "new_tracker cap bg =
     \<lparr> isInitialized = False,
       currentHeadPose = Neutral,
       poseHistory = [],
       maxHistoryLength = 3,
       isCalibrated = False,
       neutralPosition = None,
       calibrationSamples = [],
       calibrationFrames = 60,
       upThreshold = Num (- 5),
       downThreshold = Num 5,
       minConfidenceFrames = 2,
       calibrateButtonText = cap,
       calibrateButtonBackground = bg \<rparr>"

subsection \<open>Calibration\<close>

definition setDefaultCalibration :: "tracker \<Rightarrow> tracker" where
  "setDefaultCalibration t =
     t\<lparr> neutralPosition := Some (Num 0),
        upThreshold := Num (- 5),
        downThreshold := Num 5,
        isCalibrated := True,
        calibrateButtonText := HeadTrackingActiveDefault,
        calibrateButtonBackground := ''#00AA00'' \<rparr>"

definition finishCalibration :: "tracker \<Rightarrow> tracker" where
  "finishCalibration t =
     (if length (calibrationSamples t) > 10 then
        let avgPitch =
              js_div
                (foldl (\<lambda>sum sample. js_add sum (pitch sample)) (Num 0)
                   (calibrationSamples t))
                (Num (real (length (calibrationSamples t))))
        in t\<lparr> neutralPosition := Some avgPitch,
              upThreshold := js_sub avgPitch (Num 5),
              downThreshold := js_add avgPitch (Num 5),
              isCalibrated := True,
              calibrateButtonText := HeadTrackingCalibrated,
              calibrateButtonBackground := ''#00AA00'' \<rparr>
      else setDefaultCalibration t)"

definition updateCalibrationUI :: "nat \<Rightarrow> tracker \<Rightarrow> tracker" where
  "updateCalibrationUI progress t =
     (let percentage =
            math_round
              (js_mul (js_div (Num (real progress)) (Num (real (calibrationFrames t))))
                 (Num 100));
          t1 = t\<lparr> calibrateButtonText := CalibratingPercent percentage \<rparr>
      in if progress \<ge> calibrationFrames t1 then finishCalibration t1 else t1)"

definition startCalibration :: "tracker \<Rightarrow> tracker" where
  "startCalibration t = updateCalibrationUI 0 (t\<lparr> calibrationSamples := [] \<rparr>)"

subsection \<open>Classification of one sample\<close>

definition determineHeadPose :: "tracker \<Rightarrow> head_data \<Rightarrow> pose" where
  "determineHeadPose t headData =
     (if \<not> isCalibrated t then Neutral
      else let p = pitch headData
           in if js_lt p (upThreshold t) then Down
              else if js_lt (downThreshold t) p then Up
              else Neutral)"

subsection \<open>Smoothing\<close>

text \<open>
  \<^verbatim>\<open>counts\<close> is an object with string keys; \<^verbatim>\<open>Object.entries\<close> lists them in the
  order of their first assignment, so the object is an association list in that order.
  \<open>counts_add\<close> is the assignment \<^verbatim>\<open>counts[pose] = (counts[pose] || 0) + weight\<close>.
\<close>

type_synonym counts = "(pose \<times> int) list"

fun counts_add :: "counts \<Rightarrow> pose \<Rightarrow> int \<Rightarrow> counts" where
  "counts_add [] pose weight = [(pose, 0 + weight)]"
| "counts_add ((k, c) # rest) pose weight =
     (if k = pose then (k, c + weight) # rest else (k, c) # counts_add rest pose weight)"

text \<open>The \<^verbatim>\<open>forEach\<close> loop over a history of length \<open>n\<close>, from index \<open>index\<close> on.\<close>

fun forEach_counts :: "nat \<Rightarrow> pose list \<Rightarrow> nat \<Rightarrow> counts \<Rightarrow> counts" where
  "forEach_counts n [] index counts = counts"
| "forEach_counts n (pose # rest) index counts =
     forEach_counts n rest (index + 1)
       (counts_add counts pose (if int index = int n - 1 then 2 else 1))"

text \<open>
  \<^verbatim>\<open>sort((a, b) => b[1] - a[1])\<close> is a stable sort by descending count, that is by
  ascending negated count; \<open>sort_key\<close> is stable.
\<close>

definition getSmoothedPose :: "tracker \<Rightarrow> js_error + pose" where
  "getSmoothedPose t =
     (if length (poseHistory t) = 0 then Inr Neutral
      else let counts = forEach_counts (length (poseHistory t)) (poseHistory t) 0 [];
               sortedPoses = sort_key (\<lambda>e. - snd e) counts
           in case sortedPoses of
                [] \<Rightarrow> Inl TypeError
              | topPose # _ \<Rightarrow>
                  if fst topPose \<noteq> Neutral \<and> snd topPose \<ge> minConfidenceFrames t
                  then Inr (fst topPose)
                  else Inr Neutral)"

definition updateHeadPose :: "pose \<Rightarrow> head_data \<Rightarrow> tracker \<Rightarrow> js_error + tracker" where
  "updateHeadPose newPose headData t =
     (let t1 = t\<lparr> poseHistory := poseHistory t @ [newPose] \<rparr>;
          t2 = (if length (poseHistory t1) > maxHistoryLength t1
                then t1\<lparr> poseHistory := tl (poseHistory t1) \<rparr> else t1)
      in case getSmoothedPose t2 of
           Inl e \<Rightarrow> Inl e
         | Inr smoothedPose \<Rightarrow> Inr (t2\<lparr> currentHeadPose := smoothedPose \<rparr>))"

subsection \<open>The frame handler\<close>

text \<open>
  \<^verbatim>\<open>results.multiFaceLandmarks\<close> is absent (\<open>None\<close>) or an array of landmark sets,
  one per face.
\<close>

definition processResults ::
  "('l \<Rightarrow> js_error + head_data) \<Rightarrow> 'l list option \<Rightarrow> tracker \<Rightarrow> js_error + tracker" where
  "processResults calc multiFaceLandmarks t =
     (case multiFaceLandmarks of
        None \<Rightarrow> Inr t
      | Some [] \<Rightarrow> Inr t
      | Some (landmarks # _) \<Rightarrow>
          (case calc landmarks of
             Inl e \<Rightarrow> Inl e
           | Inr headData \<Rightarrow>
               if \<not> isCalibrated t then
                 (if length (calibrationSamples t) < calibrationFrames t then
                    let t1 = t\<lparr> calibrationSamples := calibrationSamples t @ [headData] \<rparr>
                    in Inr (updateCalibrationUI (length (calibrationSamples t1)) t1)
                  else Inr t)
               else updateHeadPose (determineHeadPose t headData) headData t))"

subsection \<open>The input accessor and the lifecycle\<close>

record game_input =
  up :: bool
  down :: bool
  left :: bool
  right :: bool

definition getCurrentInput :: "tracker \<Rightarrow> game_input option" where
  "getCurrentInput t =
     (if \<not> isInitialized t \<or> \<not> isCalibrated t then None
      else if currentHeadPose t \<noteq> Neutral then
        Some \<lparr> up = (currentHeadPose t = Up),
               down = (currentHeadPose t = Down),
               left = False,
               right = False \<rparr>
      else None)"

text \<open>
  \<^verbatim>\<open>recalibrate\<close> also arms a timer that calls \<^verbatim>\<open>startCalibration\<close> a second later;
  the timer firing is an event of its own (see \<open>event\<close> below).
\<close>

definition recalibrate :: "tracker \<Rightarrow> tracker" where
  "recalibrate t =
     t\<lparr> isCalibrated := False,
        calibrationSamples := [],
        currentHeadPose := Neutral,
        poseHistory := [],
        calibrateButtonText := Recalibrating,
        calibrateButtonBackground := ''#FF8C00'' \<rparr>"

definition stopHeadTracking :: "tracker \<Rightarrow> tracker" where
  "stopHeadTracking t =
     t\<lparr> isInitialized := False,
        isCalibrated := False,
        calibrateButtonText := EnableHeadTracking,
        calibrateButtonBackground := ''#8B4513'' \<rparr>"

text \<open>
  \<^verbatim>\<open>init\<close> catches every failure of the camera or of the landmark detector and then
  assigns nothing; \<open>started\<close> says whether both came up.
\<close>

definition init :: "bool \<Rightarrow> tracker \<Rightarrow> tracker" where
  "init started t =
     (if started then
        t\<lparr> calibrateButtonText := CalibratingKeepNeutral,
           calibrateButtonBackground := ''#FF8C00'',
           isInitialized := True \<rparr>
      else t)"

subsection \<open>Executions\<close>

text \<open>
  Everything runs on one thread, one callback at a time: a camera frame delivered to
  \<^verbatim>\<open>processResults\<close>, the end of \<^verbatim>\<open>init\<close>, a timer armed by \<^verbatim>\<open>init\<close> or
  \<^verbatim>\<open>recalibrate\<close> calling \<^verbatim>\<open>startCalibration\<close>, a click on the calibrate button of
  an existing tracker (\<^verbatim>\<open>recalibrate\<close>), a click on the stop button. A callback that
  throws leaves the tracker as it was before the call.
\<close>

datatype 'l event =
    CameraFrame "'l list option"
  | InitDone bool
  | CalibrationTimer
  | CalibrateClick
  | StopClick

fun step :: "('l \<Rightarrow> js_error + head_data) \<Rightarrow> 'l event \<Rightarrow> tracker \<Rightarrow> tracker" where
  "step calc (CameraFrame results) t =
     (case processResults calc results t of Inl e \<Rightarrow> t | Inr t' \<Rightarrow> t')"
| "step calc (InitDone started) t = init started t"
| "step calc CalibrationTimer t = startCalibration t"
| "step calc CalibrateClick t = recalibrate t"
| "step calc StopClick t = stopHeadTracking t"

fun run :: "('l \<Rightarrow> js_error + head_data) \<Rightarrow> 'l event list \<Rightarrow> tracker \<Rightarrow> tracker" where
  "run calc [] t = t"
| "run calc (e # es) t = run calc es (step calc e t)"

text \<open>The events that carry a detected face.\<close>

fun face_frame :: "'l event \<Rightarrow> bool" where
  "face_frame (CameraFrame (Some (landmarks # _))) = True"
| "face_frame _ = False"

subsection \<open>Auxiliary notions\<close>

text \<open>
  The weight that the \<^verbatim>\<open>forEach\<close> loop adds to one label over a block of \<open>k\<close> equal
  entries starting at index \<open>i\<close> of a history of length \<open>n\<close>: one per entry, and one
  more when the block holds the last index.
\<close>

definition block_weight :: "nat \<Rightarrow> nat \<Rightarrow> nat \<Rightarrow> int" where
  "block_weight n i k = int k + (if i < n \<and> n \<le> i + k then 1 else 0)"

text \<open>
  What holds of the constants and of the two bounded arrays in every state the class
  can reach (\<open>reachable_inv\<close> below).
\<close>

definition tracker_inv :: "tracker \<Rightarrow> bool" where
  "tracker_inv t \<longleftrightarrow>
     maxHistoryLength t = 3 \<and> calibrationFrames t = 60 \<and> minConfidenceFrames t = 2
     \<and> length (poseHistory t) \<le> 3 \<and> length (calibrationSamples t) \<le> 60"

text \<open>
  The mean of a sample window as the class computes it: the pitches added from the
  left, starting from 0, and the sum divided by the count, in double arithmetic.
\<close>

definition double_mean :: "head_data list \<Rightarrow> jsnum" where
  "double_mean samples =
     js_div (foldl js_add (Num 0) (map pitch samples)) (Num (real (length samples)))"

text \<open>The mean of exact values, as the specification words it.\<close>

definition exact_mean :: "real list \<Rightarrow> real" where
  "exact_mean xs = sum_list xs / real (length xs)"

text \<open>
  \<open>exact_double x\<close>: the value \<open>x\<close> is a double, so an operation with exact result \<open>x\<close>
  does not round. \<open>sums_exact a xs\<close>: adding the values \<open>xs\<close> to \<open>a\<close> one after the
  other never rounds.
\<close>

definition exact_double :: "real \<Rightarrow> bool" where
  "exact_double x \<longleftrightarrow> round_double x = Num x"

fun sums_exact :: "real \<Rightarrow> real list \<Rightarrow> bool" where
  "sums_exact a [] = True"
| "sums_exact a (x # xs) = (exact_double (a + x) \<and> sums_exact (a + x) xs)"

text \<open>
  Concrete inputs: a sample with a given pitch (and the double of the literal
  \<^verbatim>\<open>0.9\<close> as its confidence), and a tracker in the Active state, after \<^verbatim>\<open>init\<close> and a
  calibration on 60 samples of pitch 0.
\<close>

definition sample_of :: "real \<Rightarrow> head_data" where
  "sample_of x =
     \<lparr> pitch = Num x, eyeToNose = Num 0, chinAngle = Num 0,
       confidence = Num (8106479329266893 / 9007199254740992) \<rparr>"

definition active_tracker :: tracker where
  "active_tracker =
     finishCalibration
       ((init True (new_tracker EnableHeadTracking ''#8B4513''))
          \<lparr> calibrationSamples := replicate 60 (sample_of 0) \<rparr>)"

text \<open>
  A tracker one sample short of a full calibration window, and a pose estimator that
  reports the pitch 1 for every landmark set.
\<close>

definition almost_calibrated :: tracker where
  "almost_calibrated =
     (init True (new_tracker EnableHeadTracking ''#8B4513''))
       \<lparr> calibrationSamples := replicate 59 (sample_of 1) \<rparr>"

definition calc1 :: "unit \<Rightarrow> js_error + head_data" where
  "calc1 landmarks = Inr (sample_of 1)"

text \<open>
  The double of the literal \<^verbatim>\<open>0.1\<close>, and a tracker whose calibration window holds
  eleven samples of that pitch.
\<close>

definition tenth :: real where
  "tenth = 3602879701896397 / 36028797018963968"

definition tenths_tracker :: tracker where
  "tenths_tracker =
     (init True (new_tracker EnableHeadTracking ''#8B4513''))
       \<lparr> calibrationSamples :=
           [sample_of tenth, sample_of tenth, sample_of tenth, sample_of tenth,
            sample_of tenth, sample_of tenth, sample_of tenth, sample_of tenth,
            sample_of tenth, sample_of tenth, sample_of tenth] \<rparr>"

section \<open>Properties\<close>

subsection \<open>Double arithmetic\<close>

lemma binade_eqI:
  assumes "2 powi e \<le> \<bar>x\<bar>" and "\<bar>x\<bar> < 2 powi (e + 1)"
  shows "binade x = e"
proof -
  have "(0::real) < 2 powi e" by simp
  then have pos: "0 < \<bar>x\<bar>" using assms(1) by linarith
  have p1: "(2::real) powr real_of_int e = 2 powi e"
    by (rule powr_real_of_int') simp_all
  have p2: "(2::real) powr real_of_int (e + 1) = 2 powi (e + 1)"
    by (rule powr_real_of_int') simp_all
  have "\<lfloor>log 2 \<bar>x\<bar>\<rfloor> = e"
    using floor_log_eq_powr_iff [OF pos, of 2 e] assms p1 p2 by simp
  then show ?thesis by (simp add: binade_def)
qed

lemma binade_bounds:
  assumes "x \<noteq> 0"
  shows "2 powi (binade x) \<le> \<bar>x\<bar> \<and> \<bar>x\<bar> < 2 powi (binade x + 1)"
proof -
  have pos: "0 < \<bar>x\<bar>" using assms by simp
  have p1: "(2::real) powr real_of_int (binade x) = 2 powi (binade x)"
    by (rule powr_real_of_int') simp_all
  have p2: "(2::real) powr real_of_int (binade x + 1) = 2 powi (binade x + 1)"
    by (rule powr_real_of_int') simp_all
  show ?thesis
    using floor_log_eq_powr_iff [OF pos, of 2 "binade x"] p1 p2
    by (simp add: binade_def)
qed

text \<open>
  How a rounding is computed by hand: find the binade \<open>e\<close> of \<open>x\<close> (a normal one), round
  \<open>x\<close> divided by the spacing to the integer \<open>m\<close>, and multiply back.
\<close>

lemma round_double_eqI:
  assumes "2 powi e \<le> \<bar>x\<bar>" and "\<bar>x\<bar> < 2 powi (e + 1)" and "- 1022 \<le> e"
    and "ties_even (x / 2 powi (e - 52)) = m" and "m \<noteq> 0"
    and "\<bar>of_int m * 2 powi (e - 52)\<bar> < (2::real) powi 1024"
  shows "round_double x = Num (of_int m * 2 powi (e - 52))"
proof -
  have "0 < \<bar>x\<bar>" using assms(1) zero_less_power_int [of "2::real" e] by linarith
  then have nz: "x \<noteq> 0" by simp
  have b: "binade x = e" using assms(1,2) by (rule binade_eqI)
  have m: "max e (- 1022) = e" using assms(3) by simp
  have y: "of_int m * (2::real) powi (e - 52) \<noteq> 0" using assms(5) by simp
  show ?thesis
    using nz y assms(4,6) by (simp add: round_double_def b m Let_def)
qed

text \<open>Every integer below \<open>2 ^ 53\<close> in size is a double.\<close>

lemma round_double_of_int:
  assumes "\<bar>k\<bar> < 2 ^ 53"
  shows "round_double (of_int k) = Num (of_int k)"
proof (cases "k = 0")
  case True
  then show ?thesis by (simp add: round_double_def)
next
  case False
  define x :: real where "x = of_int k"
  have x1: "1 \<le> \<bar>x\<bar>" using False by (simp add: x_def flip: of_int_abs)
  have x2: "\<bar>x\<bar> < 2 ^ 53"
    using assms unfolding x_def
    by (metis of_int_abs of_int_less_iff of_int_numeral of_int_power)
  have nz: "x \<noteq> 0" using x1 by auto
  define e where "e = binade x"
  note bnd = binade_bounds [OF nz, folded e_def]
  have e0: "0 \<le> e"
    unfolding e_def binade_def using x1 by simp
  have "log 2 \<bar>x\<bar> < 53"
    using x1 x2 by (simp add: log_less_iff powr_realpow flip: powr_numeral)
  then have e52: "e \<le> 52"
    unfolding e_def binade_def by linarith
  define n where "n = nat (52 - e)"
  have q: "(2::real) powi (e - 52) = 1 / 2 ^ n"
    using e52 by (simp add: n_def power_int_def field_simps)
  have "x / 2 powi (e - 52) = of_int (k * 2 ^ n)"
    by (simp add: q x_def)
  then have t: "ties_even (x / 2 powi (e - 52)) = k * 2 ^ n"
    by (simp only: ties_even_def Let_def floor_of_int) simp
  have y: "of_int (k * 2 ^ n) * (2::real) powi (e - 52) = x"
    by (simp add: q x_def)
  have "(2::real) ^ 53 \<le> 2 ^ 1024" by (rule power_increasing) simp_all
  then have big: "\<bar>of_int (k * 2 ^ n) * 2 powi (e - 52)\<bar> < (2::real) powi 1024"
    using x2 unfolding y by simp
  have "round_double x = Num (of_int (k * 2 ^ n) * 2 powi (e - 52))"
    using bnd e0 t False big by (intro round_double_eqI) simp_all
  then show ?thesis unfolding y by (simp add: x_def)
qed

lemma exact_double_of_int: "\<bar>k\<bar> < 2 ^ 53 \<Longrightarrow> exact_double (of_int k)"
  by (simp add: exact_double_def round_double_of_int)

lemma exact_double_numeral: "(numeral n :: int) < 2 ^ 53 \<Longrightarrow> exact_double (numeral n)"
  using exact_double_of_int [of "numeral n"] by simp

lemma exact_double_neg_numeral:
  "(numeral n :: int) < 2 ^ 53 \<Longrightarrow> exact_double (- numeral n)"
  using exact_double_of_int [of "- numeral n"] by simp

lemma exact_double_1: "exact_double 1"
  using exact_double_of_int [of 1] by simp

lemma js_add_Num:
  "js_add (Num x) (Num y) = (if x + y = 0 then Num 0 else round_double (x + y))"
  by (simp add: js_add_def)

lemma js_sub_Num:
  "js_sub (Num x) (Num y) = (if x - y = 0 then Num 0 else round_double (x - y))"
  by (simp add: js_sub_def js_add_def)

lemma js_div_Num:
  "y \<noteq> 0 \<Longrightarrow>
   js_div (Num x) (Num y) = (if x = 0 then signed_zero (y < 0) else round_double (x / y))"
  by (auto simp: js_div_def signed_zero_def)

lemma js_add_exact: "exact_double (x + y) \<Longrightarrow> js_add (Num x) (Num y) = Num (x + y)"
  by (simp add: js_add_Num exact_double_def)

lemma js_sub_exact: "exact_double (x - y) \<Longrightarrow> js_sub (Num x) (Num y) = Num (x - y)"
  by (simp add: js_sub_Num exact_double_def)

lemma js_div_exact:
  "0 < y \<Longrightarrow> exact_double (x / y) \<Longrightarrow> js_div (Num x) (Num y) = Num (x / y)"
  by (simp add: js_div_Num exact_double_def signed_zero_def)

lemma foldl_js_add_exact:
  "sums_exact a xs \<Longrightarrow> foldl js_add (Num a) (map Num xs) = Num (a + sum_list xs)"
proof (induction xs arbitrary: a)
  case Nil
  then show ?case by simp
next
  case (Cons x xs)
  then have "js_add (Num a) (Num x) = Num (a + x)"
    by (simp add: js_add_exact)
  with Cons show ?case by (simp add: add.assoc)
qed

text \<open>The comparison is a strict partial order that respects \<^verbatim>\<open>===\<close>.\<close>

lemma js_lt_Num: "js_lt (Num x) (Num y) \<longleftrightarrow> x < y"
  by (simp add: js_lt_def)

lemma js_lt_irrefl: "\<not> js_lt a a"
  by (cases a) (simp_all add: js_lt_def)

lemma js_lt_trans: "js_lt a b \<Longrightarrow> js_lt b c \<Longrightarrow> js_lt a c"
  by (cases a; cases b; cases c) (simp_all add: js_lt_def)

lemma js_lt_asym: "js_lt a b \<Longrightarrow> \<not> js_lt b a"
  using js_lt_trans js_lt_irrefl by blast

lemma js_eq_not_lt: "js_eq a b \<Longrightarrow> \<not> js_lt a b \<and> \<not> js_lt b a"
  by (cases a; cases b) (auto simp: js_eq_def js_lt_def)

lemma js_eq_lt_left: "js_eq a b \<Longrightarrow> js_lt a c \<longleftrightarrow> js_lt b c"
  by (cases a; cases b; cases c) (auto simp: js_eq_def js_lt_def)

lemma js_eq_lt_right: "js_eq a b \<Longrightarrow> js_lt c a \<longleftrightarrow> js_lt c b"
  by (cases a; cases b; cases c) (auto simp: js_eq_def js_lt_def)

lemma js_lt_not_NaN: "js_lt a b \<Longrightarrow> a \<noteq> NaN \<and> b \<noteq> NaN"
  by (auto simp: js_lt_def)

subsection \<open>The concrete tracker\<close>

lemma foldl_pitch:
  "foldl (\<lambda>sum sample. js_add sum (pitch sample)) a samples
     = foldl js_add a (map pitch samples)"
  by (simp add: foldl_map)

lemma foldl_js_add_zeros: "foldl js_add (Num 0) (replicate n (Num 0)) = Num 0"
  by (induction n) (simp_all add: js_add_Num)

lemma active_tracker_fields:
  "active_tracker =
     \<lparr> isInitialized = True,
       currentHeadPose = Neutral,
       poseHistory = [],
       maxHistoryLength = 3,
       isCalibrated = True,
       neutralPosition = Some (Num 0),
       calibrationSamples = replicate 60 (sample_of 0),
       calibrationFrames = 60,
       upThreshold = Num (- 5),
       downThreshold = Num 5,
       minConfidenceFrames = 2,
       calibrateButtonText = HeadTrackingCalibrated,
       calibrateButtonBackground = ''#00AA00'' \<rparr>"
proof -
  have m: "pitch (sample_of 0) = Num 0"
    by (simp add: sample_of_def)
  have d: "js_div (Num 0) (Num 60) = Num 0"
    by (simp add: js_div_Num signed_zero_def)
  have u: "js_sub (Num 0) (Num 5) = Num (- 5)"
    using round_double_of_int [of "- 5"] by (simp add: js_sub_Num)
  have a: "js_add (Num 0) (Num 5) = Num 5"
    using round_double_of_int [of 5] by (simp add: js_add_Num)
  show ?thesis
    by (simp add: active_tracker_def finishCalibration_def init_def new_tracker_def
        foldl_pitch m foldl_js_add_zeros d u a Let_def)
qed

subsection \<open>Classification\<close>

text \<open>
  C1. With a completed calibration whose thresholds satisfy upThreshold < downThreshold,
  a sample classifies as \<open>Down\<close> when its pitch is below upThreshold, as \<open>Up\<close> when its
  pitch is above downThreshold and as \<open>Neutral\<close> otherwise, which covers a pitch of
  NaN. A pitch equal to either threshold is \<open>Neutral\<close>, the pitch one unit below a
  finite upThreshold is \<open>Down\<close> (duck) and the pitch one unit above a finite
  downThreshold is \<open>Up\<close> (jump); so are the pitches that \<^verbatim>\<open>upThreshold - 1\<close> and
  \<^verbatim>\<open>downThreshold + 1\<close> compute, where these do not round.
\<close>

theorem determineHeadPose_classifies:
  assumes "isCalibrated t" and "js_lt (upThreshold t) (downThreshold t)"
  shows "(js_lt (pitch s) (upThreshold t) \<longrightarrow> determineHeadPose t s = Down)
       \<and> (js_lt (downThreshold t) (pitch s) \<longrightarrow> determineHeadPose t s = Up)
       \<and> (\<not> js_lt (pitch s) (upThreshold t) \<and> \<not> js_lt (downThreshold t) (pitch s)
            \<longrightarrow> determineHeadPose t s = Neutral)
       \<and> (pitch s = upThreshold t \<or> pitch s = downThreshold t
            \<longrightarrow> determineHeadPose t s = Neutral)
       \<and> (js_eq (pitch s) (upThreshold t) \<or> js_eq (pitch s) (downThreshold t)
            \<longrightarrow> determineHeadPose t s = Neutral)
       \<and> (\<forall>u. upThreshold t = Num u \<and> pitch s = Num (u - 1)
            \<longrightarrow> determineHeadPose t s = Down)
       \<and> (\<forall>d. downThreshold t = Num d \<and> pitch s = Num (d + 1)
            \<longrightarrow> determineHeadPose t s = Up)
       \<and> (\<forall>u. upThreshold t = Num u \<and> exact_double (u - 1)
              \<and> pitch s = js_sub (upThreshold t) (Num 1)
            \<longrightarrow> determineHeadPose t s = Down)
       \<and> (\<forall>d. downThreshold t = Num d \<and> exact_double (d + 1)
              \<and> pitch s = js_add (downThreshold t) (Num 1)
            \<longrightarrow> determineHeadPose t s = Up)"
proof -
  let ?p = "pitch s" and ?u = "upThreshold t" and ?d = "downThreshold t"
  have above: "\<not> js_lt ?p ?u" if "js_lt ?d ?p"
    using that assms(2) js_lt_trans js_lt_asym by blast
  have at: "\<not> js_lt ?p ?u \<and> \<not> js_lt ?d ?p" if "js_eq ?p ?u \<or> js_eq ?p ?d"
    using that assms(2) js_eq_not_lt js_eq_lt_left js_eq_lt_right js_lt_asym by blast
  have same: "js_eq ?p ?u \<or> js_eq ?p ?d" if "?p = ?u \<or> ?p = ?d"
    using that js_lt_not_NaN [OF assms(2)] by (auto simp: js_eq_def)
  have below1: "js_lt ?p ?u" if "?u = Num u" "?p = Num (u - 1)" for u
    using that by (simp add: js_lt_Num)
  have above1: "js_lt ?d ?p" if "?d = Num d" "?p = Num (d + 1)" for d
    using that by (simp add: js_lt_Num)
  have below2: "js_lt ?p ?u"
    if "?u = Num u" "exact_double (u - 1)" "?p = js_sub ?u (Num 1)" for u
    using that by (simp add: js_sub_exact js_lt_Num)
  have above2: "js_lt ?d ?p"
    if "?d = Num d" "exact_double (d + 1)" "?p = js_add ?d (Num 1)" for d
    using that by (simp add: js_add_exact js_lt_Num)
  have down: "determineHeadPose t s = Down" if "js_lt ?p ?u"
    using that assms(1) by (simp add: determineHeadPose_def)
  have up: "determineHeadPose t s = Up" if "js_lt ?d ?p"
    using that above assms(1) by (simp add: determineHeadPose_def)
  have neutral: "determineHeadPose t s = Neutral" if "\<not> js_lt ?p ?u" "\<not> js_lt ?d ?p"
    using that by (simp add: determineHeadPose_def)
  show ?thesis
    using down up neutral at same below1 above1 below2 above2 by blast
qed

theorem determineHeadPose_classifies_witness:
  "isCalibrated active_tracker
   \<and> js_lt (upThreshold active_tracker) (downThreshold active_tracker)
   \<and> upThreshold active_tracker = Num (- 5)
   \<and> downThreshold active_tracker = Num 5
   \<and> determineHeadPose active_tracker (sample_of (- 5 - 1)) = Down
   \<and> determineHeadPose active_tracker (sample_of (- 5)) = Neutral
   \<and> determineHeadPose active_tracker (sample_of 5) = Neutral
   \<and> determineHeadPose active_tracker (sample_of (5 + 1)) = Up
   \<and> determineHeadPose active_tracker ((sample_of 0)\<lparr> pitch := NaN \<rparr>) = Neutral
   \<and> exact_double (- 5 - 1) \<and> exact_double (5 + 1)
   \<and> determineHeadPose active_tracker
        ((sample_of 0)\<lparr> pitch := js_sub (upThreshold active_tracker) (Num 1) \<rparr>) = Down
   \<and> determineHeadPose active_tracker
        ((sample_of 0)\<lparr> pitch := js_add (downThreshold active_tracker) (Num 1) \<rparr>) = Up"
  using determineHeadPose_classifies [of active_tracker "sample_of (- 5 - 1)"]
    determineHeadPose_classifies [of active_tracker
      "(sample_of 0)\<lparr> pitch := js_sub (upThreshold active_tracker) (Num 1) \<rparr>"]
    determineHeadPose_classifies [of active_tracker
      "(sample_of 0)\<lparr> pitch := js_add (downThreshold active_tracker) (Num 1) \<rparr>"]
    determineHeadPose_classifies [of active_tracker "sample_of (- 5)"]
    determineHeadPose_classifies [of active_tracker "sample_of 5"]
    determineHeadPose_classifies [of active_tracker "sample_of (5 + 1)"]
    determineHeadPose_classifies [of active_tracker "(sample_of 0)\<lparr> pitch := NaN \<rparr>"]
  by (simp add: active_tracker_fields sample_of_def js_lt_def js_eq_def
      exact_double_numeral exact_double_neg_numeral)

subsection \<open>Calibration\<close>

lemma finishCalibration_averaged:
  assumes "10 < length (calibrationSamples t)"
  shows "finishCalibration t =
     t\<lparr> neutralPosition := Some (double_mean (calibrationSamples t)),
        upThreshold := js_sub (double_mean (calibrationSamples t)) (Num 5),
        downThreshold := js_add (double_mean (calibrationSamples t)) (Num 5),
        isCalibrated := True,
        calibrateButtonText := HeadTrackingCalibrated,
        calibrateButtonBackground := ''#00AA00'' \<rparr>"
  using assms by (simp add: finishCalibration_def double_mean_def foldl_pitch Let_def)

lemma double_mean_exact:
  assumes "map pitch samples = map Num xs" and "xs \<noteq> []"
    and "sums_exact 0 xs" and "exact_double (exact_mean xs)"
  shows "double_mean samples = Num (exact_mean xs)"
proof -
  have len: "length samples = length xs"
    using assms(1) by (metis length_map)
  have "foldl js_add (Num 0) (map pitch samples) = Num (sum_list xs)"
    using foldl_js_add_exact [OF assms(3)] assms(1) by simp
  moreover have "0 < real (length xs)" using assms(2) by simp
  ultimately show ?thesis
    using assms(4) by (simp add: double_mean_def len exact_mean_def js_div_exact)
qed

text \<open>
  C2. When the sample window holds at least 11 samples, \<open>finishCalibration\<close> sets the
  neutral pitch to the mean \<open>a\<close> that double arithmetic gives (the pitches added from the
  left, the sum divided by the count, each result rounded to the nearest double),
  upThreshold to the double \<open>a - 5\<close>, downThreshold to the double \<open>a + 5\<close>, and marks the
  calibration complete. When the pitches are finite with exact mean \<open>p\<close> and none of
  these operations rounds, the three values are exactly \<open>p\<close>, \<open>p - 5\<close> and \<open>p + 5\<close>.
\<close>

theorem finishCalibration_adaptive:
  assumes "11 \<le> length (calibrationSamples t)"
  shows "neutralPosition (finishCalibration t) = Some (double_mean (calibrationSamples t))
       \<and> upThreshold (finishCalibration t)
           = js_sub (double_mean (calibrationSamples t)) (Num 5)
       \<and> downThreshold (finishCalibration t)
           = js_add (double_mean (calibrationSamples t)) (Num 5)
       \<and> isCalibrated (finishCalibration t)
       \<and> (\<forall>xs p. map pitch (calibrationSamples t) = map Num xs \<and> exact_mean xs = p
              \<and> sums_exact 0 xs \<and> exact_double p
              \<and> exact_double (p - 5) \<and> exact_double (p + 5)
            \<longrightarrow> neutralPosition (finishCalibration t) = Some (Num p)
              \<and> upThreshold (finishCalibration t) = Num (p - 5)
              \<and> downThreshold (finishCalibration t) = Num (p + 5))"
proof -
  have long: "10 < length (calibrationSamples t)" using assms by simp
  note fin = finishCalibration_averaged [OF long]
  have exact: "double_mean (calibrationSamples t) = Num p"
    if "map pitch (calibrationSamples t) = map Num xs" "exact_mean xs = p"
      "sums_exact 0 xs" "exact_double p" for xs p
  proof -
    have "length xs = length (calibrationSamples t)"
      using that(1) by (metis length_map)
    then have "xs \<noteq> []" using long by auto
    then show ?thesis
      using double_mean_exact [OF that(1) _ that(3)] that(2,4) by simp
  qed
  show ?thesis
    using exact by (auto simp: fin js_sub_exact js_add_exact)
qed

theorem finishCalibration_adaptive_witness:
  "11 \<le> length (calibrationSamples
      (active_tracker\<lparr> calibrationSamples := map sample_of [1, 2, 3, 4, 5, 6, 7, 8, 9, 10, 11] \<rparr>))
   \<and> map pitch (map sample_of [1, 2, 3, 4, 5, 6, 7, 8, 9, 10, 11])
       = map Num [1, 2, 3, 4, 5, 6, 7, 8, 9, 10, 11]
   \<and> exact_mean [1, 2, 3, 4, 5, 6, 7, 8, 9, 10, 11] = 6
   \<and> sums_exact 0 [1, 2, 3, 4, 5, 6, 7, 8, 9, 10, 11]
   \<and> exact_double 6 \<and> exact_double (6 - 5) \<and> exact_double (6 + 5)
   \<and> neutralPosition (finishCalibration
        (active_tracker\<lparr> calibrationSamples := map sample_of [1, 2, 3, 4, 5, 6, 7, 8, 9, 10, 11] \<rparr>))
       = Some (Num 6)
   \<and> upThreshold (finishCalibration
        (active_tracker\<lparr> calibrationSamples := map sample_of [1, 2, 3, 4, 5, 6, 7, 8, 9, 10, 11] \<rparr>))
       = Num 1
   \<and> downThreshold (finishCalibration
        (active_tracker\<lparr> calibrationSamples := map sample_of [1, 2, 3, 4, 5, 6, 7, 8, 9, 10, 11] \<rparr>))
       = Num 11"
proof -
  let ?xs = "[1, 2, 3, 4, 5, 6, 7, 8, 9, 10, 11] :: real list"
  let ?t = "active_tracker\<lparr> calibrationSamples := map sample_of ?xs \<rparr>"
  have l: "11 \<le> length (calibrationSamples ?t)" by simp
  have m: "map pitch (calibrationSamples ?t) = map Num ?xs" by (simp add: sample_of_def)
  have p: "exact_mean ?xs = 6" by (simp add: exact_mean_def)
  have s: "sums_exact 0 ?xs" by (simp add: exact_double_numeral exact_double_1)
  have e: "exact_double 6" "exact_double (6 - 5)" "exact_double (6 + 5)"
    by (simp_all add: exact_double_numeral exact_double_1)
  from finishCalibration_adaptive [OF l] m p s e
  have "neutralPosition (finishCalibration ?t) = Some (Num 6)
      \<and> upThreshold (finishCalibration ?t) = Num (6 - 5)
      \<and> downThreshold (finishCalibration ?t) = Num (6 + 5)"
    by blast
  with m p s e show ?thesis by simp
qed

text \<open>
  The values do round. The exact mean of eleven samples of the double 0.1 is that
  double, but the sum from the left rounds three times, and the class stores the next
  smaller double (printed \<^verbatim>\<open>0.09999999999999999\<close>) as the neutral pitch. The thresholds
  are the doubles printed \<^verbatim>\<open>-4.9\<close> and \<^verbatim>\<open>5.1\<close>, neither of which is the exact mean minus
  or plus 5.
\<close>

lemma round_double_0: "round_double (3602879701896397 / 36028797018963968) = Num (3602879701896397 / 36028797018963968)"
  using round_double_eqI [of "- 4" "3602879701896397 / 36028797018963968" "7205759403792794"]
  by (simp add: ties_even_def Let_def)

lemma round_double_1: "round_double (3602879701896397 / 18014398509481984) = Num (3602879701896397 / 18014398509481984)"
  using round_double_eqI [of "- 3" "3602879701896397 / 18014398509481984" "7205759403792794"]
  by (simp add: ties_even_def Let_def)

lemma round_double_2: "round_double (10808639105689191 / 36028797018963968) = Num (1351079888211149 / 4503599627370496)"
  using round_double_eqI [of "- 2" "10808639105689191 / 36028797018963968" "5404319552844596"]
  by (simp add: ties_even_def Let_def)

lemma round_double_3: "round_double (14411518807585589 / 36028797018963968) = Num (3602879701896397 / 9007199254740992)"
  using round_double_eqI [of "- 2" "14411518807585589 / 36028797018963968" "7205759403792794"]
  by (simp add: ties_even_def Let_def)

lemma round_double_4: "round_double (18014398509481985 / 36028797018963968) = Num (1 / 2)"
  using round_double_eqI [of "- 1" "18014398509481985 / 36028797018963968" "4503599627370496"]
  by (simp add: ties_even_def Let_def)

lemma round_double_5: "round_double (21617278211378381 / 36028797018963968) = Num (5404319552844595 / 9007199254740992)"
  using round_double_eqI [of "- 1" "21617278211378381 / 36028797018963968" "5404319552844595"]
  by (simp add: ties_even_def Let_def)

lemma round_double_6: "round_double (25220157913274777 / 36028797018963968) = Num (3152519739159347 / 4503599627370496)"
  using round_double_eqI [of "- 1" "25220157913274777 / 36028797018963968" "6305039478318694"]
  by (simp add: ties_even_def Let_def)

lemma round_double_7: "round_double (28823037615171173 / 36028797018963968) = Num (7205759403792793 / 9007199254740992)"
  using round_double_eqI [of "- 1" "28823037615171173 / 36028797018963968" "7205759403792793"]
  by (simp add: ties_even_def Let_def)

lemma round_double_8: "round_double (32425917317067569 / 36028797018963968) = Num (2026619832316723 / 2251799813685248)"
  using round_double_eqI [of "- 1" "32425917317067569 / 36028797018963968" "8106479329266892"]
  by (simp add: ties_even_def Let_def)

lemma round_double_9: "round_double (36028797018963965 / 36028797018963968) = Num (9007199254740991 / 9007199254740992)"
  using round_double_eqI [of "- 1" "36028797018963965 / 36028797018963968" "9007199254740991"]
  by (simp add: ties_even_def Let_def)

lemma round_double_10: "round_double (39631676720860361 / 36028797018963968) = Num (4953959590107545 / 4503599627370496)"
  using round_double_eqI [of "0" "39631676720860361 / 36028797018963968" "4953959590107545"]
  by (simp add: ties_even_def Let_def)

lemma round_double_11: "round_double (4953959590107545 / 49539595901075456) = Num (7205759403792793 / 72057594037927936)"
  using round_double_eqI [of "- 4" "4953959590107545 / 49539595901075456" "7205759403792793"]
  by (simp add: ties_even_def Let_def)

lemma round_double_12: "round_double (- (353082210785846887 / 72057594037927936)) = Num (- (2758454771764429 / 562949953421312))"
  using round_double_eqI [of "2" "- (353082210785846887 / 72057594037927936)" "- 5516909543528858"]
  by (simp add: ties_even_def Let_def)

lemma round_double_13: "round_double (367493729593432473 / 72057594037927936) = Num (2871044762448691 / 562949953421312)"
  using round_double_eqI [of "2" "367493729593432473 / 72057594037927936" "5742089524897382"]
  by (simp add: ties_even_def Let_def)

lemma sum_tenths:
  "foldl js_add (Num 0)
     [Num tenth, Num tenth, Num tenth, Num tenth, Num tenth, Num tenth,
      Num tenth, Num tenth, Num tenth, Num tenth, Num tenth]
   = Num (4953959590107545 / 4503599627370496)"
  by (simp add: tenth_def js_add_Num round_double_0 round_double_1 round_double_2
      round_double_3 round_double_4 round_double_5 round_double_6 round_double_7
      round_double_8 round_double_9 round_double_10)

lemma double_mean_tenths:
  "double_mean (calibrationSamples tenths_tracker)
     = Num (7205759403792793 / 72057594037927936)"
proof -
  have m: "map pitch (calibrationSamples tenths_tracker)
       = [Num tenth, Num tenth, Num tenth, Num tenth, Num tenth, Num tenth,
          Num tenth, Num tenth, Num tenth, Num tenth, Num tenth]"
    by (simp add: tenths_tracker_def sample_of_def)
  have l: "length (calibrationSamples tenths_tracker) = 11"
    by (simp add: tenths_tracker_def)
  show ?thesis
    unfolding double_mean_def m sum_tenths l
    by (simp add: js_div_Num round_double_11)
qed

lemma thresholds_tenths:
  "js_sub (Num (7205759403792793 / 72057594037927936)) (Num 5)
     = Num (- (2758454771764429 / 562949953421312))"
  "js_add (Num (7205759403792793 / 72057594037927936)) (Num 5)
     = Num (2871044762448691 / 562949953421312)"
  by (simp_all add: js_sub_Num js_add_Num round_double_12 round_double_13)

theorem finishCalibration_rounds_counterexample:
  "11 \<le> length (calibrationSamples tenths_tracker)
   \<and> map pitch (calibrationSamples tenths_tracker)
       = map Num [tenth, tenth, tenth, tenth, tenth, tenth, tenth, tenth, tenth, tenth, tenth]
   \<and> exact_mean [tenth, tenth, tenth, tenth, tenth, tenth, tenth, tenth, tenth, tenth, tenth]
       = tenth
   \<and> neutralPosition (finishCalibration tenths_tracker)
       = Some (Num (7205759403792793 / 72057594037927936))
   \<and> neutralPosition (finishCalibration tenths_tracker) \<noteq> Some (Num tenth)
   \<and> upThreshold (finishCalibration tenths_tracker)
       = Num (- (2758454771764429 / 562949953421312))
   \<and> upThreshold (finishCalibration tenths_tracker) \<noteq> Num (tenth - 5)
   \<and> downThreshold (finishCalibration tenths_tracker)
       = Num (2871044762448691 / 562949953421312)
   \<and> downThreshold (finishCalibration tenths_tracker) \<noteq> Num (tenth + 5)"
proof -
  have long: "10 < length (calibrationSamples tenths_tracker)"
    by (simp add: tenths_tracker_def)
  note fin = finishCalibration_averaged [OF long]
  have m: "map pitch (calibrationSamples tenths_tracker)
       = map Num [tenth, tenth, tenth, tenth, tenth, tenth, tenth, tenth, tenth, tenth, tenth]"
    by (simp add: tenths_tracker_def sample_of_def)
  have p: "exact_mean
      [tenth, tenth, tenth, tenth, tenth, tenth, tenth, tenth, tenth, tenth, tenth] = tenth"
    by (simp add: exact_mean_def)
  have n: "neutralPosition (finishCalibration tenths_tracker)
       = Some (Num (7205759403792793 / 72057594037927936))"
    by (simp add: fin double_mean_tenths)
  have u: "upThreshold (finishCalibration tenths_tracker)
       = Num (- (2758454771764429 / 562949953421312))"
    by (simp add: fin double_mean_tenths thresholds_tenths)
  have d: "downThreshold (finishCalibration tenths_tracker)
       = Num (2871044762448691 / 562949953421312)"
    by (simp add: fin double_mean_tenths thresholds_tenths)
  have ne: "7205759403792793 / 72057594037927936 \<noteq> tenth"
    "- (2758454771764429 / 562949953421312) \<noteq> tenth - 5"
    "2871044762448691 / 562949953421312 \<noteq> tenth + 5"
    by (simp_all add: tenth_def)
  show ?thesis
    using long m p n u d ne by simp
qed

text \<open>
  C5. When calibration ends with at most 10 samples, \<open>finishCalibration\<close> takes the
  default calibration: neutral pitch 0, upThreshold -5, downThreshold 5, and the tracker
  is marked calibrated. The function is total: this branch has no operation that throws.
\<close>

theorem finishCalibration_default:
  assumes "length (calibrationSamples t) \<le> 10"
  shows "finishCalibration t = setDefaultCalibration t
       \<and> neutralPosition (finishCalibration t) = Some (Num 0)
       \<and> upThreshold (finishCalibration t) = Num (- 5)
       \<and> downThreshold (finishCalibration t) = Num 5
       \<and> isCalibrated (finishCalibration t)"
  using assms by (simp add: finishCalibration_def setDefaultCalibration_def)

theorem finishCalibration_default_witness:
  "length (calibrationSamples
      ((new_tracker EnableHeadTracking [])\<lparr> calibrationSamples := [sample_of 3, sample_of 4] \<rparr>))
      \<le> 10
   \<and> upThreshold (finishCalibration
        ((new_tracker EnableHeadTracking [])\<lparr> calibrationSamples := [sample_of 3, sample_of 4] \<rparr>))
      = Num (- 5)
   \<and> downThreshold (finishCalibration
        ((new_tracker EnableHeadTracking [])\<lparr> calibrationSamples := [sample_of 3, sample_of 4] \<rparr>))
      = Num 5
   \<and> isCalibrated (finishCalibration
        ((new_tracker EnableHeadTracking [])\<lparr> calibrationSamples := [sample_of 3, sample_of 4] \<rparr>))"
  using finishCalibration_default
    [of "(new_tracker EnableHeadTracking [])\<lparr> calibrationSamples := [sample_of 3, sample_of 4] \<rparr>"]
  by (simp add: setDefaultCalibration_def)

subsection \<open>The weighted vote\<close>

lemma counts_add_present:
  "q \<notin> fst ` set pre \<Longrightarrow>
   counts_add (pre @ (q, c) # rest) q w = pre @ (q, c + w) # rest"
  by (induction pre) auto

lemma counts_add_absent:
  "q \<notin> fst ` set cs \<Longrightarrow> counts_add cs q w = cs @ [(q, w)]"
  by (induction cs) auto

lemma forEach_counts_append:
  "forEach_counts n (xs @ ys) i cs
     = forEach_counts n ys (i + length xs) (forEach_counts n xs i cs)"
  by (induction xs arbitrary: i cs) simp_all

lemma forEach_counts_replicate_present:
  "q \<notin> fst ` set pre \<Longrightarrow>
   forEach_counts n (replicate k q) i (pre @ (q, c) # rest)
     = pre @ (q, c + block_weight n i k) # rest"
proof (induction k arbitrary: i c)
  case 0
  then show ?case by (simp add: block_weight_def)
next
  case (Suc k)
  have "(if int i = int n - 1 then 2 else 1) + block_weight n (i + 1) k
          = block_weight n i (Suc k)"
    by (auto simp: block_weight_def)
  with Suc show ?case
    by (simp add: counts_add_present add.assoc)
qed

lemma forEach_counts_replicate_absent:
  assumes "q \<notin> fst ` set cs" and "0 < k"
  shows "forEach_counts n (replicate k q) i cs = cs @ [(q, block_weight n i k)]"
proof -
  obtain j where k: "k = Suc j" using assms(2) by (cases k) auto
  have w: "(if int i = int n - 1 then 2 else 1) + block_weight n (i + 1) j
             = block_weight n i (Suc j)"
    by (auto simp: block_weight_def)
  show ?thesis
    using forEach_counts_replicate_present [OF assms(1), of n j "i + 1" _ "[]"] w
    by (simp add: k counts_add_absent [OF assms(1)])
qed

text \<open>
  C4. A window that holds one non-neutral command, at any position, and otherwise only
  \<open>Neutral\<close> entries, at least two of them, is smoothed to \<open>Neutral\<close>. (When the outlier
  is the most recent of three entries it ties with \<open>Neutral\<close> at weight 2, and the stable
  sort keeps \<open>Neutral\<close>, the label seen first, in front.)
\<close>

theorem single_outlier_suppressed:
  assumes h: "poseHistory t = replicate k Neutral @ p # replicate m Neutral"
    and p: "p \<noteq> Neutral" and km: "2 \<le> k + m"
  shows "getSmoothedPose t = Inr Neutral"
proof -
  let ?n = "k + m + 1"
  have len: "length (poseHistory t) = ?n" by (simp add: h)
  let ?cs = "forEach_counts ?n (poseHistory t) 0 []"
  have top: "\<exists>c rest. sort_key (\<lambda>e. - snd e) ?cs = (Neutral, c) # rest"
  proof (cases "k = 0")
    case True
    then have m: "2 \<le> m" using km by simp
    have "?cs = forEach_counts ?n (replicate m Neutral) 1 [(p, 1)]"
      using True m by (simp add: h)
    also have "\<dots> = [(p, 1), (Neutral, block_weight ?n 1 m)]"
      using forEach_counts_replicate_absent [of Neutral "[(p, 1)]" m ?n 1] p m by simp
    finally show ?thesis using True m by (simp add: block_weight_def)
  next
    case False
    then have k: "0 < k" by simp
    have first: "forEach_counts n (replicate k Neutral) 0 [] = [(Neutral, int k)]"
      if "k < n" for n
      using forEach_counts_replicate_absent [of Neutral "[]" k n 0] k that
      by (simp add: block_weight_def)
    show ?thesis
    proof (cases "m = 0")
      case True
      then have "?cs = [(Neutral, int k), (p, 2)]"
        using p by (simp add: h forEach_counts_append first)
      then show ?thesis using True km by simp
    next
      case False
      then have "?cs = forEach_counts ?n (replicate m Neutral) (k + 1)
                         [(Neutral, int k), (p, 1)]"
        using p by (simp add: h forEach_counts_append first)
      also have "\<dots> = [(Neutral, int k + block_weight ?n (k + 1) m), (p, 1)]"
        using forEach_counts_replicate_present
          [of Neutral "[]" ?n m "k + 1" "int k" "[(p, 1)]"]
        by simp
      finally show ?thesis using False by (simp add: block_weight_def)
    qed
  qed
  then obtain c rest where "sort_key (\<lambda>e. - snd e) ?cs = (Neutral, c) # rest" by blast
  then show ?thesis
    by (simp add: getSmoothedPose_def len Let_def h)
qed

theorem single_outlier_suppressed_witness:
  "poseHistory (active_tracker\<lparr> poseHistory := [Neutral, Neutral, Up] \<rparr>)
     = replicate (Suc (Suc 0)) Neutral @ Up # replicate 0 Neutral
   \<and> Up \<noteq> Neutral \<and> 2 \<le> Suc (Suc 0) + (0::nat)
   \<and> getSmoothedPose (active_tracker\<lparr> poseHistory := [Neutral, Neutral, Up] \<rparr>) = Inr Neutral"
  using single_outlier_suppressed
    [of "active_tracker\<lparr> poseHistory := [Neutral, Neutral, Up] \<rparr>" "Suc (Suc 0)" Up 0]
  by simp

lemma length_le_3_cases:
  assumes "length (xs::'a list) \<le> 3"
  obtains "xs = []" | a where "xs = [a]" | a b where "xs = [a, b]"
    | a b c where "xs = [a, b, c]"
proof -
  from assms have "xs = [] \<or> (\<exists>a. xs = [a]) \<or> (\<exists>a b. xs = [a, b])
      \<or> (\<exists>a b c. xs = [a, b, c])"
    by (cases xs; cases "tl xs"; cases "tl (tl xs)"; cases "tl (tl (tl xs))") auto
  then show ?thesis using that by blast
qed

text \<open>
  The vote never reads \<^verbatim>\<open>sortedPoses[0]\<close> of an empty array: a non-empty history
  leaves at least one count. So neither \<open>getSmoothedPose\<close> nor \<open>updateHeadPose\<close> throws.
\<close>

lemma forEach_counts_nonempty:
  "xs \<noteq> [] \<or> cs \<noteq> [] \<Longrightarrow> forEach_counts n xs i cs \<noteq> []"
proof (induction xs arbitrary: i cs)
  case Nil
  then show ?case by simp
next
  case (Cons x xs)
  have "counts_add cs x w \<noteq> []" for w
    by (cases cs) (auto split: if_splits)
  then show ?case using Cons.IH by simp
qed

lemma getSmoothedPose_returns: "\<exists>p. getSmoothedPose t = Inr p"
proof (cases "poseHistory t = []")
  case True
  then show ?thesis by (simp add: getSmoothedPose_def)
next
  case False
  then have "forEach_counts (length (poseHistory t)) (poseHistory t) 0 [] \<noteq> []"
    by (simp add: forEach_counts_nonempty)
  then have "sort_key (\<lambda>e. - snd e)
      (forEach_counts (length (poseHistory t)) (poseHistory t) 0 []) \<noteq> []"
    by (metis length_sort length_0_conv)
  then show ?thesis using False
    by (auto simp: getSmoothedPose_def Let_def split: list.splits)
qed

lemma updateHeadPose_returns: "\<exists>t'. updateHeadPose p headData t = Inr t'"
  using getSmoothedPose_returns
  by (auto simp: updateHeadPose_def Let_def split: sum.splits) (metis Inl_Inr_False)+

text \<open>
  C6. In a window of at most three entries whose two most recent entries are the same
  non-neutral command, the smoothed pose is that command: it has weight at least
  1 + 2 = 3, the only other entry has weight 1, and 3 meets the confidence threshold 2.
\<close>

theorem sustained_command_emitted:
  assumes "poseHistory t = older @ [p, p]" and "length (poseHistory t) \<le> 3"
    and "p \<noteq> Neutral" and "minConfidenceFrames t = 2"
  shows "getSmoothedPose t = Inr p"
proof -
  have "length older \<le> 1" using assms(1,2) by simp
  then consider "older = []" | a where "older = [a]"
    by (cases older) auto
  then show ?thesis
  proof cases
    case 1
    then show ?thesis using assms by (simp add: getSmoothedPose_def)
  next
    case 2
    then show ?thesis using assms by (cases a; cases p; simp add: getSmoothedPose_def)
  qed
qed

theorem sustained_command_emitted_witness:
  "poseHistory (active_tracker\<lparr> poseHistory := [Neutral, Down, Down] \<rparr>)
     = [Neutral] @ [Down, Down]
   \<and> length (poseHistory (active_tracker\<lparr> poseHistory := [Neutral, Down, Down] \<rparr>)) \<le> 3
   \<and> Down \<noteq> Neutral
   \<and> minConfidenceFrames (active_tracker\<lparr> poseHistory := [Neutral, Down, Down] \<rparr>) = 2
   \<and> getSmoothedPose (active_tracker\<lparr> poseHistory := [Neutral, Down, Down] \<rparr>) = Inr Down"
  using sustained_command_emitted
    [of "active_tracker\<lparr> poseHistory := [Neutral, Down, Down] \<rparr>" "[Neutral]" Down]
  by (simp add: active_tracker_fields)

text \<open>
  C3. In a tracker with window capacity 3 and confidence threshold 2,
  \<open>updateHeadPose\<close> with a non-neutral command \<open>p\<close> returns a tracker whose window is the
  old one, without its oldest entry if it was full, followed by \<open>p\<close>. In the vote \<open>p\<close>
  has weight 2 plus the number of older entries equal to \<open>p\<close>, so at least the
  threshold. The emitted command is \<open>p\<close>, except when the two older entries of the
  window carry one and the same label other than \<open>p\<close>: that label then also has
  weight 2, stays in front of \<open>p\<close> in the stable sort, and is the emitted command
  (\<open>Neutral\<close> when it is \<open>Neutral\<close>).
\<close>

theorem pushed_command_vote:
  assumes "maxHistoryLength t = 3" and "minConfidenceFrames t = 2"
    and "length (poseHistory t) \<le> 3" and "p \<noteq> Neutral"
  shows "\<exists>t'. updateHeadPose p headData t = Inr t'
      \<and> poseHistory t'
          = (if length (poseHistory t) = 3 then tl (poseHistory t) else poseHistory t) @ [p]
      \<and> map_of (forEach_counts (length (poseHistory t')) (poseHistory t') 0 []) p
          = Some (2 + int (count_list (butlast (poseHistory t')) p))
      \<and> currentHeadPose t'
          = (if \<exists>q. butlast (poseHistory t') = [q, q] \<and> q \<noteq> p
             then hd (poseHistory t') else p)"
  using assms(3)
proof (cases rule: length_le_3_cases)
  case 1
  then show ?thesis using assms
    by (cases p) (simp_all add: updateHeadPose_def getSmoothedPose_def)
next
  case (2 a)
  then show ?thesis using assms
    by (cases p; cases a) (simp_all add: updateHeadPose_def getSmoothedPose_def)
next
  case (3 a b)
  then show ?thesis using assms
    by (cases p; cases a; cases b) (simp_all add: updateHeadPose_def getSmoothedPose_def)
next
  case (4 a b c)
  then show ?thesis using assms
    by (cases p; cases b; cases c) (simp_all add: updateHeadPose_def getSmoothedPose_def)
qed

theorem pushed_command_vote_witness:
  "maxHistoryLength (active_tracker\<lparr> poseHistory := [Down, Neutral] \<rparr>) = 3
   \<and> minConfidenceFrames (active_tracker\<lparr> poseHistory := [Down, Neutral] \<rparr>) = 2
   \<and> length (poseHistory (active_tracker\<lparr> poseHistory := [Down, Neutral] \<rparr>)) \<le> 3
   \<and> Up \<noteq> Neutral
   \<and> map_sum id currentHeadPose
       (updateHeadPose Up (sample_of 6) (active_tracker\<lparr> poseHistory := [Down, Neutral] \<rparr>))
       = Inr Up"
  using pushed_command_vote
    [of "active_tracker\<lparr> poseHistory := [Down, Neutral] \<rparr>" Up "sample_of 6"]
  by (auto simp: active_tracker_fields)

text \<open>
  The exception is real: after two \<open>Neutral\<close> frames, one \<open>Up\<close> frame leaves the emitted
  command at \<open>Neutral\<close>. The window becomes \<open>[Neutral, Neutral, Up]\<close>, both labels have
  weight 2, and \<open>Neutral\<close> was counted first.
\<close>

theorem single_push_counterexample:
  "map_sum id currentHeadPose
     (updateHeadPose Up (sample_of 6) (active_tracker\<lparr> poseHistory := [Neutral, Neutral] \<rparr>))
     = Inr Neutral
   \<and> map_sum id currentHeadPose
     (updateHeadPose Up (sample_of 6) (active_tracker\<lparr> poseHistory := [Neutral, Neutral] \<rparr>))
     \<noteq> Inr Up"
  by (simp add: updateHeadPose_def getSmoothedPose_def active_tracker_fields)

subsection \<open>The input accessor\<close>

text \<open>
  C7. \<open>getCurrentInput\<close> returns nothing exactly when the tracker is not initialized,
  not calibrated, or its current command is \<open>Neutral\<close>; an object it returns never has
  both \<open>up\<close> and \<open>down\<close> set. (It has one of them set, since the current command is
  then \<open>Up\<close> or \<open>Down\<close>, and neither \<open>left\<close> nor \<open>right\<close>.)
\<close>

theorem getCurrentInput_exclusive:
  "(getCurrentInput t = None
      \<longleftrightarrow> \<not> isInitialized t \<or> \<not> isCalibrated t \<or> currentHeadPose t = Neutral)
   \<and> (\<forall>i. getCurrentInput t = Some i
          \<longrightarrow> \<not> (up i \<and> down i) \<and> (up i \<or> down i) \<and> \<not> left i \<and> \<not> right i)"
proof -
  have "currentHeadPose t = Up \<or> currentHeadPose t = Down \<or> currentHeadPose t = Neutral"
    by (cases "currentHeadPose t") simp_all
  then show ?thesis
    by (auto simp: getCurrentInput_def)
qed

theorem getCurrentInput_exclusive_witness:
  "getCurrentInput (active_tracker\<lparr> currentHeadPose := Up \<rparr>)
     = Some \<lparr> up = True, down = False, left = False, right = False \<rparr>
   \<and> \<not> (up \<lparr> up = True, down = False, left = False, right = False \<rparr>
        \<and> down \<lparr> up = True, down = False, left = False, right = False \<rparr>)"
proof -
  have "getCurrentInput (active_tracker\<lparr> currentHeadPose := Up \<rparr>)
     = Some \<lparr> up = True, down = False, left = False, right = False \<rparr>"
    by (simp add: getCurrentInput_def active_tracker_fields)
  then show ?thesis
    using getCurrentInput_exclusive [of "active_tracker\<lparr> currentHeadPose := Up \<rparr>"] by blast
qed

subsection \<open>Frames without a face\<close>

text \<open>
  C8. A frame whose landmark result is absent or empty returns at once and leaves the
  whole tracker as it was: the pose history, the current command and the calibration
  samples in particular. So does any run of such frames, however long.
\<close>

theorem processResults_no_face:
  "processResults calc None t = Inr t
   \<and> processResults calc (Some []) t = Inr t
   \<and> (\<forall>rs. (\<forall>r \<in> set rs. r = None \<or> r = Some [])
          \<longrightarrow> run calc (map CameraFrame rs) t = t)"
proof -
  have one: "processResults calc None t = Inr t" "processResults calc (Some []) t = Inr t"
    by (simp_all add: processResults_def)
  have "run calc (map CameraFrame rs) t = t"
    if "\<forall>r \<in> set rs. r = None \<or> r = Some []" for rs
    using that
  proof (induction rs)
    case Nil
    then show ?case by simp
  next
    case (Cons r rs)
    then have "step calc (CameraFrame r) t = t"
      using one by auto
    with Cons show ?case by simp
  qed
  with one show ?thesis by blast
qed

theorem processResults_no_face_witness:
  "processResults calc1 None
      (active_tracker\<lparr> poseHistory := [Up, Up], currentHeadPose := Up \<rparr>)
     = Inr (active_tracker\<lparr> poseHistory := [Up, Up], currentHeadPose := Up \<rparr>)
   \<and> run calc1 (map CameraFrame [None, Some [], None])
      (active_tracker\<lparr> poseHistory := [Up, Up], currentHeadPose := Up \<rparr>)
     = active_tracker\<lparr> poseHistory := [Up, Up], currentHeadPose := Up \<rparr>
   \<and> getCurrentInput (run calc1 (map CameraFrame [None, Some [], None])
      (active_tracker\<lparr> poseHistory := [Up, Up], currentHeadPose := Up \<rparr>))
     = Some \<lparr> up = True, down = False, left = False, right = False \<rparr>"
proof -
  have h: "\<forall>r \<in> set [None, Some [], None :: unit list option]. r = None \<or> r = Some []"
    by simp
  have g: "getCurrentInput (active_tracker\<lparr> poseHistory := [Up, Up], currentHeadPose := Up \<rparr>)
     = Some \<lparr> up = True, down = False, left = False, right = False \<rparr>"
    by (simp add: getCurrentInput_def active_tracker_fields)
  from processResults_no_face
    [of calc1 "active_tracker\<lparr> poseHistory := [Up, Up], currentHeadPose := Up \<rparr>"] h
  have "processResults calc1 None
      (active_tracker\<lparr> poseHistory := [Up, Up], currentHeadPose := Up \<rparr>)
     = Inr (active_tracker\<lparr> poseHistory := [Up, Up], currentHeadPose := Up \<rparr>)"
    and "run calc1 (map CameraFrame [None, Some [], None])
      (active_tracker\<lparr> poseHistory := [Up, Up], currentHeadPose := Up \<rparr>)
     = active_tracker\<lparr> poseHistory := [Up, Up], currentHeadPose := Up \<rparr>"
    by blast+
  with g show ?thesis by simp
qed

subsection \<open>Reachable states\<close>

text \<open>
  Every state reached from a freshly constructed tracker keeps the constructor's
  constants, a pose history of at most 3 entries and a sample window of at most 60.
\<close>

lemma new_tracker_inv: "tracker_inv (new_tracker cap bg)"
  by (simp add: tracker_inv_def new_tracker_def)

lemma updateHeadPose_inv:
  assumes "tracker_inv t" and "updateHeadPose p headData t = Inr t'"
  shows "tracker_inv t'"
  using assms
  by (auto simp: tracker_inv_def updateHeadPose_def Let_def split: sum.splits if_splits)

lemma step_inv:
  assumes "tracker_inv t"
  shows "tracker_inv (step calc e t)"
proof (cases e)
  case (CameraFrame results)
  show ?thesis
  proof (cases results)
    case None
    then show ?thesis using assms CameraFrame by (simp add: processResults_def)
  next
    case (Some faces)
    show ?thesis
    proof (cases faces)
      case Nil
      then show ?thesis using assms CameraFrame Some by (simp add: processResults_def)
    next
      case (Cons landmarks others)
      show ?thesis
      proof (cases "calc landmarks")
        case (Inl err)
        then show ?thesis using assms CameraFrame Some Cons by (simp add: processResults_def)
      next
        case (Inr headData)
        show ?thesis
        proof (cases "isCalibrated t")
          case True
          obtain t' where "updateHeadPose (determineHeadPose t headData) headData t = Inr t'"
            using updateHeadPose_returns by blast
          then show ?thesis
            using updateHeadPose_inv [OF assms] True CameraFrame Some Cons Inr
            by (simp add: processResults_def)
        next
          case False
          then show ?thesis using assms CameraFrame Some Cons Inr
            by (auto simp: processResults_def updateCalibrationUI_def finishCalibration_def
                tracker_inv_def Let_def)
        qed
      qed
    qed
  qed
next
  case (InitDone started)
  then show ?thesis using assms by (simp add: init_def tracker_inv_def)
next
  case CalibrationTimer
  then show ?thesis using assms
    by (simp add: startCalibration_def updateCalibrationUI_def Let_def tracker_inv_def)
next
  case CalibrateClick
  then show ?thesis using assms by (simp add: recalibrate_def tracker_inv_def)
next
  case StopClick
  then show ?thesis using assms by (simp add: stopHeadTracking_def tracker_inv_def)
qed

lemma run_inv: "tracker_inv t \<Longrightarrow> tracker_inv (run calc evs t)"
  by (induction evs arbitrary: t) (simp_all add: step_inv)

lemma reachable_inv: "tracker_inv (run calc evs (new_tracker cap bg))"
  by (simp add: run_inv new_tracker_inv)

subsection \<open>Executions while calibrating\<close>

lemma step_calibrating:
  assumes "\<not> isCalibrated t" and "calibrationFrames t = 60"
    and "length (calibrationSamples t) + (if face_frame e then 1 else 0) < 60"
  shows "\<not> isCalibrated (step calc e t) \<and> calibrationFrames (step calc e t) = 60
       \<and> length (calibrationSamples (step calc e t))
           \<le> length (calibrationSamples t) + (if face_frame e then 1 else 0)"
proof (cases e)
  case (CameraFrame results)
  show ?thesis
  proof (cases results)
    case None
    then show ?thesis using assms CameraFrame by (simp add: processResults_def)
  next
    case (Some faces)
    show ?thesis
    proof (cases faces)
      case Nil
      then show ?thesis using assms CameraFrame Some by (simp add: processResults_def)
    next
      case (Cons landmarks others)
      then show ?thesis using assms CameraFrame Some
        by (cases "calc landmarks")
          (simp_all add: processResults_def updateCalibrationUI_def Let_def)
    qed
  qed
next
  case (InitDone started)
  then show ?thesis using assms by (simp add: init_def)
next
  case CalibrationTimer
  then show ?thesis using assms
    by (simp add: startCalibration_def updateCalibrationUI_def Let_def)
next
  case CalibrateClick
  then show ?thesis using assms by (simp add: recalibrate_def)
next
  case StopClick
  then show ?thesis using assms by (simp add: stopHeadTracking_def)
qed

lemma run_calibrating:
  assumes "\<not> isCalibrated t" and "calibrationFrames t = 60"
    and "length (calibrationSamples t) + length (filter face_frame evs) < 60"
  shows "\<not> isCalibrated (run calc evs t)"
  using assms
proof (induction evs arbitrary: t)
  case Nil
  then show ?case by simp
next
  case (Cons e evs)
  have bound: "length (calibrationSamples t) + (if face_frame e then 1 else 0) < 60"
    using Cons.prems(3) by (simp split: if_splits)
  note s = step_calibrating [OF Cons.prems(1,2) bound, of calc]
  have "length (calibrationSamples (step calc e t)) + length (filter face_frame evs) < 60"
    using s Cons.prems(3) by (simp split: if_splits)
  with s Cons.IH [of "step calc e t"] show ?case by simp
qed

lemma not_active_no_input:
  "\<not> (isInitialized s \<and> isCalibrated s) \<Longrightarrow> getCurrentInput s = None"
  by (auto simp: getCurrentInput_def)

text \<open>
  C9. \<open>recalibrate\<close> clears the calibrated flag, the sample window, the pose history and
  the current command, so the input accessor returns nothing right after it. It keeps
  returning nothing after every sequence of events that follows as long as the tracker
  is not calibrated again, which takes at least 60 frames with a face. In any state that
  is not both initialized and calibrated the accessor returns nothing.
\<close>

theorem recalibrate_silences:
  assumes "calibrationFrames t = 60"
  shows "\<not> isCalibrated (recalibrate t)
       \<and> calibrationSamples (recalibrate t) = []
       \<and> poseHistory (recalibrate t) = []
       \<and> currentHeadPose (recalibrate t) = Neutral
       \<and> getCurrentInput (recalibrate t) = None
       \<and> (\<forall>evs. length (filter face_frame evs) < 60
             \<longrightarrow> getCurrentInput (run calc evs (recalibrate t)) = None)
       \<and> (\<forall>evs. \<not> isCalibrated (run calc evs (recalibrate t))
             \<longrightarrow> getCurrentInput (run calc evs (recalibrate t)) = None)
       \<and> (\<forall>s. \<not> (isInitialized s \<and> isCalibrated s) \<longrightarrow> getCurrentInput s = None)"
proof -
  have r: "\<not> isCalibrated (recalibrate t)" "calibrationFrames (recalibrate t) = 60"
    "calibrationSamples (recalibrate t) = []"
    using assms by (simp_all add: recalibrate_def)
  have "getCurrentInput (run calc evs (recalibrate t)) = None"
    if "length (filter face_frame evs) < 60" for evs
    using run_calibrating [OF r(1,2), of evs calc] that r(3)
    by (simp add: not_active_no_input)
  then show ?thesis
    using r by (simp add: not_active_no_input) (simp add: recalibrate_def)
qed

theorem recalibrate_silences_witness:
  "calibrationFrames (active_tracker\<lparr> currentHeadPose := Up \<rparr>) = 60
   \<and> length (filter face_frame
        [CameraFrame (Some [()]), CalibrationTimer, CameraFrame None, CameraFrame (Some [()])])
       < 60
   \<and> \<not> isCalibrated
        (run calc1
           [CameraFrame (Some [()]), CalibrationTimer, CameraFrame None, CameraFrame (Some [()])]
           (recalibrate (active_tracker\<lparr> currentHeadPose := Up \<rparr>)))
   \<and> \<not> (isInitialized (stopHeadTracking active_tracker)
        \<and> isCalibrated (stopHeadTracking active_tracker))
   \<and> getCurrentInput (active_tracker\<lparr> currentHeadPose := Up \<rparr>)
       = Some \<lparr> up = True, down = False, left = False, right = False \<rparr>
   \<and> getCurrentInput (recalibrate (active_tracker\<lparr> currentHeadPose := Up \<rparr>)) = None
   \<and> getCurrentInput
        (run calc1
           [CameraFrame (Some [()]), CalibrationTimer, CameraFrame None, CameraFrame (Some [()])]
           (recalibrate (active_tracker\<lparr> currentHeadPose := Up \<rparr>))) = None
   \<and> getCurrentInput (stopHeadTracking active_tracker) = None"
proof -
  have c: "calibrationFrames (active_tracker\<lparr> currentHeadPose := Up \<rparr>) = 60"
    by (simp add: active_tracker_fields)
  have l: "length (filter face_frame
        [CameraFrame (Some [()]), CalibrationTimer, CameraFrame None, CameraFrame (Some [()])])
      < 60"
    by simp
  have n: "\<not> isCalibrated
        (run calc1
           [CameraFrame (Some [()]), CalibrationTimer, CameraFrame None, CameraFrame (Some [()])]
           (recalibrate (active_tracker\<lparr> currentHeadPose := Up \<rparr>)))"
    by (simp add: active_tracker_fields recalibrate_def processResults_def calc1_def
        updateCalibrationUI_def startCalibration_def Let_def)
  have s: "\<not> (isInitialized (stopHeadTracking active_tracker)
        \<and> isCalibrated (stopHeadTracking active_tracker))"
    by (simp add: stopHeadTracking_def)
  have b: "getCurrentInput (active_tracker\<lparr> currentHeadPose := Up \<rparr>)
       = Some \<lparr> up = True, down = False, left = False, right = False \<rparr>"
    by (simp add: getCurrentInput_def active_tracker_fields)
  show ?thesis
    using recalibrate_silences [OF c, of calc1] c l n s b by blast
qed

subsection \<open>How a calibration completes\<close>

lemma step_never_default:
  assumes "calibrationFrames t = 60"
    and "calibrateButtonText t \<noteq> HeadTrackingActiveDefault"
  shows "calibrationFrames (step calc e t) = 60
       \<and> calibrateButtonText (step calc e t) \<noteq> HeadTrackingActiveDefault"
proof (cases e)
  case (CameraFrame results)
  show ?thesis
  proof (cases results)
    case None
    then show ?thesis using assms CameraFrame by (simp add: processResults_def)
  next
    case (Some faces)
    show ?thesis
    proof (cases faces)
      case Nil
      then show ?thesis using assms CameraFrame Some by (simp add: processResults_def)
    next
      case (Cons landmarks others)
      then show ?thesis using assms CameraFrame Some
        by (cases "calc landmarks")
          (auto simp: processResults_def updateCalibrationUI_def finishCalibration_def
            updateHeadPose_def Let_def split: sum.splits)
    qed
  qed
next
  case (InitDone started)
  then show ?thesis using assms by (simp add: init_def)
next
  case CalibrationTimer
  then show ?thesis using assms
    by (simp add: startCalibration_def updateCalibrationUI_def Let_def)
next
  case CalibrateClick
  then show ?thesis using assms by (simp add: recalibrate_def)
next
  case StopClick
  then show ?thesis using assms by (simp add: stopHeadTracking_def)
qed

lemma run_never_default:
  assumes "calibrationFrames t = 60"
    and "calibrateButtonText t \<noteq> HeadTrackingActiveDefault"
  shows "calibrateButtonText (run calc evs t) \<noteq> HeadTrackingActiveDefault"
  using assms
proof (induction evs arbitrary: t)
  case Nil
  then show ?case by simp
next
  case (Cons e evs)
  from step_never_default [OF Cons.prems, of calc e] Cons.IH [of "step calc e t"]
  show ?case by simp
qed

lemma step_completes_calibration:
  assumes "calibrationFrames t = 60" and "\<not> isCalibrated t"
    and "isCalibrated (step calc e t)"
  shows "face_frame e
       \<and> length (calibrationSamples (step calc e t)) = 60
       \<and> calibrateButtonText (step calc e t) = HeadTrackingCalibrated
       \<and> upThreshold (step calc e t)
           = js_sub (double_mean (calibrationSamples (step calc e t))) (Num 5)
       \<and> downThreshold (step calc e t)
           = js_add (double_mean (calibrationSamples (step calc e t))) (Num 5)"
proof (cases e)
  case (CameraFrame results)
  show ?thesis
  proof (cases results)
    case None
    then show ?thesis using assms CameraFrame by (simp add: processResults_def)
  next
    case (Some faces)
    show ?thesis
    proof (cases faces)
      case Nil
      then show ?thesis using assms CameraFrame Some by (simp add: processResults_def)
    next
      case (Cons landmarks others)
      show ?thesis
      proof (cases "calc landmarks")
        case (Inl err)
        then show ?thesis using assms CameraFrame Some Cons by (simp add: processResults_def)
      next
        case (Inr headData)
        then show ?thesis using assms CameraFrame Some Cons
          by (auto simp: processResults_def updateCalibrationUI_def finishCalibration_def
              Let_def foldl_pitch double_mean_def split: if_splits)
      qed
    qed
  qed
next
  case (InitDone started)
  then show ?thesis using assms by (simp add: init_def split: if_splits)
next
  case CalibrationTimer
  then show ?thesis using assms
    by (simp add: startCalibration_def updateCalibrationUI_def Let_def)
next
  case CalibrateClick
  then show ?thesis using assms by (simp add: recalibrate_def)
next
  case StopClick
  then show ?thesis using assms by (simp add: stopHeadTracking_def)
qed

text \<open>
  C10. With the calibration window of 60 frames, an event completes a calibration only
  if it is a frame with a face that brings the sample window to exactly 60 samples, and
  the calibration it completes is the averaged one (caption and thresholds of the first
  branch of \<open>finishCalibration\<close>). Along every sequence of events the caption that only
  \<open>setDefaultCalibration\<close> writes never appears, so the branch for too few samples is
  never taken. While fewer than 60 samples have been collected and no further frame with
  a face arrives, the tracker stays uncalibrated.
\<close>

theorem default_branch_unreachable:
  assumes "calibrationFrames t = 60"
  shows "(\<forall>e. \<not> isCalibrated t \<and> isCalibrated (step calc e t)
            \<longrightarrow> face_frame e
              \<and> length (calibrationSamples (step calc e t)) = 60
              \<and> calibrateButtonText (step calc e t) = HeadTrackingCalibrated
              \<and> upThreshold (step calc e t)
                  = js_sub (double_mean (calibrationSamples (step calc e t))) (Num 5)
              \<and> downThreshold (step calc e t)
                  = js_add (double_mean (calibrationSamples (step calc e t))) (Num 5))
       \<and> (\<forall>evs. calibrateButtonText t \<noteq> HeadTrackingActiveDefault
            \<longrightarrow> calibrateButtonText (run calc evs t) \<noteq> HeadTrackingActiveDefault)
       \<and> (\<forall>evs. \<not> isCalibrated t
              \<and> length (calibrationSamples t) + length (filter face_frame evs) < 60
            \<longrightarrow> \<not> isCalibrated (run calc evs t))"
  using assms step_completes_calibration [of t calc] run_never_default [of t calc]
    run_calibrating [of t _ calc]
  by blast

theorem default_branch_unreachable_witness:
  "calibrationFrames almost_calibrated = 60
   \<and> \<not> isCalibrated almost_calibrated
   \<and> isCalibrated (step calc1 (CameraFrame (Some [()])) almost_calibrated)
   \<and> length (calibrationSamples (step calc1 (CameraFrame (Some [()])) almost_calibrated)) = 60
   \<and> calibrateButtonText (step calc1 (CameraFrame (Some [()])) almost_calibrated)
       = HeadTrackingCalibrated
   \<and> calibrateButtonText almost_calibrated \<noteq> HeadTrackingActiveDefault
   \<and> calibrateButtonText
        (run calc1 [CameraFrame (Some [()]), CalibrationTimer] almost_calibrated)
       \<noteq> HeadTrackingActiveDefault
   \<and> length (calibrationSamples almost_calibrated)
       + length (filter face_frame [CameraFrame None, CalibrationTimer :: unit event]) < 60
   \<and> \<not> isCalibrated (run calc1 [CameraFrame None, CalibrationTimer] almost_calibrated)"
proof -
  have c: "calibrationFrames almost_calibrated = 60"
    by (simp add: almost_calibrated_def init_def new_tracker_def)
  have n: "\<not> isCalibrated almost_calibrated"
    by (simp add: almost_calibrated_def init_def new_tracker_def)
  have s: "isCalibrated (step calc1 (CameraFrame (Some [()])) almost_calibrated)"
    by (simp add: almost_calibrated_def init_def new_tracker_def processResults_def calc1_def
        updateCalibrationUI_def finishCalibration_def Let_def)
  have d: "calibrateButtonText almost_calibrated \<noteq> HeadTrackingActiveDefault"
    by (simp add: almost_calibrated_def init_def new_tracker_def)
  have l: "length (calibrationSamples almost_calibrated)
       + length (filter face_frame [CameraFrame None, CalibrationTimer :: unit event]) < 60"
    by (simp add: almost_calibrated_def)
  show ?thesis
    using default_branch_unreachable [OF c, of calc1] c n s d l by blast
qed

end
